theory Spec2Isabelle
  imports Main "HOL-Library.AList" "HOL-Library.Multiset" "HOL-Library.Char_ord" "HOL-Library.List_Lexorder"
begin

section \<open>pprof-repo: the profile store and its HTTP front end\<close>

text \<open>
  A shallow embedding of \<^verbatim>\<open>src/pprof-repo/main.go\<close>. The handler's fields, the
  file system below the profiles directory and the response writer are explicit state;
  every error return and every panic of the source is a value of the model. The snapshot
  parser (\<^verbatim>\<open>profile.Parse\<close>) and the visualisation engine (\<^verbatim>\<open>driver.PProf\<close>)
  are not part of the repository: they are parameters of the model.
\<close>

subsection \<open>Regular expressions\<close>

text \<open>
  The fragment of Go's \<^verbatim>\<open>regexp\<close> syntax that \<^verbatim>\<open>profileNameRegexp\<close> uses: character
  classes made of ranges, concatenation and repetition. A class item \<open>(lo, hi)\<close> is the
  range \<^verbatim>\<open>lo-hi\<close>; a single character \<^verbatim>\<open>c\<close> is the range \<open>(c, c)\<close>. The matcher
  works by derivatives.
\<close>

datatype regexp =
  Fail
  | Eps
  | Class "(char \<times> char) list"
  | Cat regexp regexp
  | Alt regexp regexp
  | Star regexp

definition in_range :: "char \<times> char \<Rightarrow> char \<Rightarrow> bool" where
  "in_range r c = ((of_char (fst r) :: nat) \<le> of_char c \<and> (of_char c :: nat) \<le> of_char (snd r))"

definition in_class :: "(char \<times> char) list \<Rightarrow> char \<Rightarrow> bool" where
  "in_class rs c = list_ex (\<lambda>r. in_range r c) rs"

fun nullable :: "regexp \<Rightarrow> bool" where
  "nullable Fail = False"
| "nullable Eps = True"
| "nullable (Class rs) = False"
| "nullable (Cat r s) = (nullable r \<and> nullable s)"
| "nullable (Alt r s) = (nullable r \<or> nullable s)"
| "nullable (Star r) = True"

fun deriv :: "char \<Rightarrow> regexp \<Rightarrow> regexp" where
  "deriv c Fail = Fail"
| "deriv c Eps = Fail"
| "deriv c (Class rs) = (if in_class rs c then Eps else Fail)"
| "deriv c (Cat r s) =
     (if nullable r then Alt (Cat (deriv c r) s) (deriv c s) else Cat (deriv c r) s)"
| "deriv c (Alt r s) = Alt (deriv c r) (deriv c s)"
| "deriv c (Star r) = Cat (deriv c r) (Star r)"

definition Plus :: "regexp \<Rightarrow> regexp" where
  "Plus r = Cat r (Star r)"

text \<open>
  \<^verbatim>\<open>MatchString\<close> of a pattern \<^verbatim>\<open>^r$\<close>. Without flags, \<^verbatim>\<open>^\<close> matches only at the
  beginning of the text and \<^verbatim>\<open>$\<close> only at its end, so the text contains a match exactly
  when the whole text matches \<open>r\<close>.
\<close>

definition MatchString :: "regexp \<Rightarrow> string \<Rightarrow> bool" where
  "MatchString r s = nullable (foldl (\<lambda>q c. deriv c q) r s)"

text \<open>\<^verbatim>\<open>var profileNameRegexp = regexp.MustCompile(`^[a-zA-Z0-9_\-]+$`)\<close>\<close>

definition profileNameRegexp :: regexp where
  "profileNameRegexp =
     Plus (Class [(CHR ''a'', CHR ''z''), (CHR ''A'', CHR ''Z''), (CHR ''0'', CHR ''9''),
                  (CHR ''_'', CHR ''_''), (CHR ''-'', CHR ''-'')])"

text \<open>
  The identifier alphabet in the spec's words: letters, digits, \<^verbatim>\<open>_\<close> and \<^verbatim>\<open>-\<close>.
\<close>

definition identifier_chars :: "char set" where
  "identifier_chars =
     set ''abcdefghijklmnopqrstuvwxyzABCDEFGHIJKLMNOPQRSTUVWXYZ0123456789_-''"

text \<open>The language of a regular expression: the reference the matcher is proved against.\<close>

inductive_set star :: "string set \<Rightarrow> string set" for L :: "string set" where
  star_nil: "[] \<in> star L"
| star_app: "u \<in> L \<Longrightarrow> v \<in> star L \<Longrightarrow> u @ v \<in> star L"

fun lang :: "regexp \<Rightarrow> string set" where
  "lang Fail = {}"
| "lang Eps = {[]}"
| "lang (Class rs) = {[c] | c. in_class rs c}"
| "lang (Cat r s) = {u @ v | u v. u \<in> lang r \<and> v \<in> lang s}"
| "lang (Alt r s) = lang r \<union> lang s"
| "lang (Star r) = star (lang r)"

subsection \<open>Strings and paths\<close>

definition strings_HasPrefix :: "string \<Rightarrow> string \<Rightarrow> bool" where
  "strings_HasPrefix s pre = (take (length pre) s = pre)"

definition strings_HasSuffix :: "string \<Rightarrow> string \<Rightarrow> bool" where
  "strings_HasSuffix s suf = (length suf \<le> length s \<and> drop (length s - length suf) s = suf)"

definition strings_TrimSuffix :: "string \<Rightarrow> string \<Rightarrow> string" where
  "strings_TrimSuffix s suf =
     (if strings_HasSuffix s suf then take (length s - length suf) s else s)"

text \<open>The last path element: what follows the last \<^verbatim>\<open>/\<close>.\<close>

definition last_element :: "string \<Rightarrow> string" where
  "last_element p = rev (takeWhile (\<lambda>c. c \<noteq> CHR ''/'') (rev p))"

text \<open>
  \<^verbatim>\<open>filepath.Base\<close>: \<^verbatim>\<open>.\<close> for the empty path; trailing separators are stripped; the last
  element is returned, or \<^verbatim>\<open>/\<close> when the path held separators only.
\<close>

definition filepath_Base :: "string \<Rightarrow> string" where
  "filepath_Base p =
     (if p = [] then ''.''
      else let q = last_element (rev (dropWhile (\<lambda>c. c = CHR ''/'') (rev p)))
           in if q = [] then ''/'' else q)"

text \<open>
  \<^verbatim>\<open>filepath.Ext\<close>: the suffix that starts at the last dot of the last path element, empty
  when that element has no dot.
\<close>

definition filepath_Ext :: "string \<Rightarrow> string" where
  "filepath_Ext p =
     (let e = last_element p
      in if CHR ''.'' \<in> set e then CHR ''.'' # rev (takeWhile (\<lambda>c. c \<noteq> CHR ''.'') (rev e))
         else [])"

text \<open>
  \<^verbatim>\<open>filepath.Join(dir, elem)\<close> for a clean, non-empty directory name and an element without
  separators, where \<^verbatim>\<open>Clean\<close> has nothing to rewrite: the two joined by one separator.
\<close>

definition filepath_Join :: "string \<Rightarrow> string \<Rightarrow> string" where
  "filepath_Join dir elem = dir @ ''/'' @ elem"

text \<open>\<^verbatim>\<open>strings.TrimSuffix(filepath.Base(path), filepath.Ext(path))\<close>\<close>

definition profileID_of :: "string \<Rightarrow> string" where
  "profileID_of path = strings_TrimSuffix (filepath_Base path) (filepath_Ext path)"

subsection \<open>The file system\<close>

text \<open>
  The files of the catalog directory, by path. A file has its bytes, its modification
  time and whether the process may read and write it. Paths are unique in a directory
  listing; the association list keeps the first binding of a path.
\<close>

type_synonym time = int

record disk_file =
  content :: string
  modTime :: time
  readable :: bool
  writable :: bool

type_synonym filesystem = "(string \<times> disk_file) list"

datatype error =
  StatError | OpenError | OpenFileError | CopyError | ParseError | DriverError

text \<open>\<^verbatim>\<open>os.Stat(path)\<close>\<close>

definition os_Stat :: "filesystem \<Rightarrow> string \<Rightarrow> error + disk_file" where
  "os_Stat fs path = (case map_of fs path of None \<Rightarrow> Inl StatError | Some f \<Rightarrow> Inr f)"

text \<open>\<^verbatim>\<open>os.Open(path)\<close>: the bytes a reader of the file gets.\<close>

definition os_Open :: "filesystem \<Rightarrow> string \<Rightarrow> error + string" where
  "os_Open fs path =
     (case map_of fs path of
        None \<Rightarrow> Inl OpenError
      | Some f \<Rightarrow> if readable f then Inr (content f) else Inl OpenError)"

text \<open>
  \<^verbatim>\<open>os.OpenFile(path, os.O_CREATE|os.O_WRONLY|os.O_TRUNC, 0666)\<close>: a missing file is
  created empty, an existing writable file is truncated to length zero, an existing
  file that may not be written is an error. The result is the file system after the call.
\<close>

definition os_OpenFile :: "time \<Rightarrow> filesystem \<Rightarrow> string \<Rightarrow> error + filesystem" where
  "os_OpenFile now fs path =
     (case map_of fs path of
        None \<Rightarrow>
          Inr (AList.update path
                 \<lparr>content = [], modTime = now, readable = True, writable = True\<rparr> fs)
      | Some f \<Rightarrow>
          if writable f then Inr (AList.update path (f\<lparr>content := [], modTime := now\<rparr>) fs)
          else Inl OpenFileError)"

text \<open>
  \<^verbatim>\<open>io.Copy(f, file)\<close> into the file opened at \<open>path\<close>. The copy either writes all of
  \<open>src\<close>, or fails after some bytes (\<open>fault = Some n\<close>: a short write or a failing read
  of the upload), leaving what was written so far.
\<close>

definition io_Copy ::
  "nat option \<Rightarrow> time \<Rightarrow> filesystem \<Rightarrow> string \<Rightarrow> string \<Rightarrow> error option \<times> filesystem" where
  "io_Copy fault now fs path src =
     (case map_of fs path of
        None \<Rightarrow> (Some CopyError, fs)
      | Some f \<Rightarrow>
          (case fault of
             None \<Rightarrow> (None, AList.update path (f\<lparr>content := src, modTime := now\<rparr>) fs)
           | Some n \<Rightarrow>
               (Some CopyError,
                AList.update path (f\<lparr>content := take n src, modTime := now\<rparr>) fs)))"

text \<open>
  \<^verbatim>\<open>filepath.Glob(filepath.Join(profilesDir, "*.pprof"))\<close>: the paths \<^verbatim>\<open>dir/x.pprof\<close> where
  \<^verbatim>\<open>x\<close> holds no separator, in sorted order.
\<close>

definition glob_pprof :: "string \<Rightarrow> string \<Rightarrow> bool" where
  "glob_pprof dir path =
     (strings_HasPrefix path (dir @ ''/'') \<and>
      (let rest = drop (length dir + 1) path
       in CHR ''/'' \<notin> set rest \<and> strings_HasSuffix rest ''.pprof''))"

definition filepath_Glob :: "filesystem \<Rightarrow> string \<Rightarrow> string list" where
  "filepath_Glob fs dir = sort (filter (glob_pprof dir) (map fst fs))"

subsection \<open>External collaborators\<close>

text \<open>
  \<^item> \<open>profile_Parse\<close> is \<^verbatim>\<open>profile.Parse\<close>: the parsed profile, or \<open>None\<close> for a decode
    error.
  \<^item> \<open>driver_Handlers\<close> is what \<^verbatim>\<open>driver.PProf\<close> does with the options of
    \<^verbatim>\<open>LoadProfile\<close>: it fails (\<open>None\<close>), or it calls the \<^verbatim>\<open>HTTPServer\<close> hook once with
    its handler map and returns what the hook returns; the list holds the keys of
    \<^verbatim>\<open>ha.Handlers\<close> in the order the hook's loop visits them. An engine that returns nil
    without calling the hook is \<open>Some []\<close>.
  \<^item> \<open>time_Format\<close> is \<^verbatim>\<open>Time.Format(time.RFC3339)\<close>.
\<close>

record 'p externals =
  profile_Parse :: "string \<Rightarrow> 'p option"
  driver_Handlers :: "'p \<Rightarrow> string list option"
  time_Format :: "time \<Rightarrow> string"

subsection \<open>The handler and its catalog\<close>

record ProfileInfo =
  Name :: string
  ModTime :: time

text \<open>
  \<open>ProfileMux\<close> is the \<^verbatim>\<open>http.ServeMux\<close> of the handler, as the list of the patterns
  registered so far.
\<close>

record Handler =
  UploadToken :: string
  ProfilesDir :: string
  ProfileMux :: "string list"
  Profiles :: "ProfileInfo list"

datatype outcome = Nil | Err error | Panic

text \<open>
  \<^verbatim>\<open>http.ServeMux\<close> parses every pattern it is given and refuses one that conflicts with
  a registered pattern. A parsed path is a list of segments: a literal, a wildcard
  \<^verbatim>\<open>{name}\<close>, or a wildcard for the rest of the path (\<^verbatim>\<open>{name...}\<close>, and the empty name
  for a trailing separator). The segment \<^verbatim>\<open>{$}\<close> is the literal \<^verbatim>\<open>/\<close>.
\<close>

datatype segment = Lit string | Wild string | Multi string

datatype relationship = Equivalent | MoreGeneral | MoreSpecific | Disjoint | Overlaps

definition ishex :: "char \<Rightarrow> bool" where
  "ishex c = in_class [(CHR ''0'', CHR ''9''), (CHR ''a'', CHR ''f''), (CHR ''A'', CHR ''F'')] c"

definition unhex :: "char \<Rightarrow> nat" where
  "unhex c =
     (if in_range (CHR ''0'', CHR ''9'') c then of_char c - of_char CHR ''0''
      else if in_range (CHR ''a'', CHR ''f'') c then of_char c - of_char CHR ''a'' + 10
      else of_char c - of_char CHR ''A'' + 10)"

text \<open>
  \<^verbatim>\<open>url.PathUnescape\<close>: every \<^verbatim>\<open>%\<close> must be followed by two hexadecimal digits, and stands
  for that byte; \<open>None\<close> is the error.
\<close>

fun unescape :: "string \<Rightarrow> string option" where
  "unescape [] = Some []"
| "unescape [c] = (if c = CHR ''%'' then None else Some [c])"
| "unescape [c, d] = (if c = CHR ''%'' then None else map_option ((#) c) (unescape [d]))"
| "unescape (c # h1 # h2 # rest) =
     (if c = CHR ''%'' then
        (if ishex h1 \<and> ishex h2
         then map_option ((#) (char_of (unhex h1 * 16 + unhex h2))) (unescape rest)
         else None)
      else map_option ((#) c) (unescape (h1 # h2 # rest)))"

text \<open>\<^verbatim>\<open>pathUnescape\<close> of the mux: an invalidly escaped segment is used as it is.\<close>

definition pathUnescape :: "string \<Rightarrow> string" where
  "pathUnescape s = (case unescape s of None \<Rightarrow> s | Some u \<Rightarrow> u)"

text \<open>
  \<^verbatim>\<open>isValidWildcardName\<close>: a Go identifier. Letters are the ASCII letters here; Go also
  admits the other Unicode letters and digits.
\<close>

definition isValidWildcardName :: "string \<Rightarrow> bool" where
  "isValidWildcardName s =
     (case s of
        [] \<Rightarrow> False
      | c # cs \<Rightarrow>
          in_class [(CHR ''a'', CHR ''z''), (CHR ''A'', CHR ''Z''), (CHR ''_'', CHR ''_'')] c \<and>
          list_all
            (in_class [(CHR ''a'', CHR ''z''), (CHR ''A'', CHR ''Z''), (CHR ''_'', CHR ''_''),
                       (CHR ''0'', CHR ''9'')]) cs)"

text \<open>The pieces of a string between its separators.\<close>

fun split_slash :: "string \<Rightarrow> string list" where
  "split_slash [] = [[]]"
| "split_slash (c # cs) =
     (if c = CHR ''/'' then [] # split_slash cs
      else (case split_slash cs of [] \<Rightarrow> [[c]] | p # ps \<Rightarrow> (c # p) # ps))"

text \<open>
  The segment loop of \<^verbatim>\<open>parsePattern\<close>, over the pieces that follow the first separator;
  \<open>seen\<close> holds the wildcard names so far. An empty last piece is a trailing separator.
\<close>

fun parse_segments :: "string list \<Rightarrow> string list \<Rightarrow> segment list option" where
  "parse_segments [] seen = Some []"
| "parse_segments (seg # rest) seen =
     (if seg = [] \<and> rest = [] then Some [Multi []]
      else if CHR ''{'' \<notin> set seg
      then map_option ((#) (Lit (pathUnescape seg))) (parse_segments rest seen)
      else if hd seg \<noteq> CHR ''{'' then None
      else if last seg \<noteq> CHR ''}'' then None
      else
        let name = butlast (tl seg)
        in if name = ''$'' then (if rest \<noteq> [] then None else Some [Lit ''/''])
           else
             let multi = strings_HasSuffix name ''...'';
                 name = strings_TrimSuffix name ''...''
             in if multi \<and> rest \<noteq> [] then None
                else if name = [] then None
                else if \<not> isValidWildcardName name then None
                else if name \<in> set seen then None
                else map_option ((#) (if multi then Multi name else Wild name))
                       (parse_segments rest (name # seen)))"

text \<open>
  \<^verbatim>\<open>parsePattern\<close> for the patterns of this program, which start with a separator. The
  empty pattern is refused. A pattern with a blank or a tab is refused: what stands
  before the blank is read as the method, and a method with a separator in it is not
  valid. Otherwise method and host are empty and the whole pattern is the path. A
  pattern that starts otherwise (a method, a host) is never built by the program and is
  refused here.
\<close>

definition parsePattern :: "string \<Rightarrow> segment list option" where
  "parsePattern s =
     (if \<not> strings_HasPrefix s ''/'' then None
      else if CHR '' '' \<in> set s \<or> CHR 0x09 \<in> set s then None
      else parse_segments (split_slash (tl s)) [])"

definition is_multi :: "segment \<Rightarrow> bool" where
  "is_multi s = (case s of Multi n \<Rightarrow> True | _ \<Rightarrow> False)"

definition is_wild :: "segment \<Rightarrow> bool" where
  "is_wild s = (case s of Wild n \<Rightarrow> True | _ \<Rightarrow> False)"

definition compareSegments :: "segment \<Rightarrow> segment \<Rightarrow> relationship" where
  "compareSegments s1 s2 =
     (if is_multi s1 \<and> is_multi s2 then Equivalent
      else if is_multi s1 then MoreGeneral
      else if is_multi s2 then MoreSpecific
      else if is_wild s1 \<and> is_wild s2 then Equivalent
      else if is_wild s1 then (if s2 = Lit ''/'' then Disjoint else MoreGeneral)
      else if is_wild s2 then (if s1 = Lit ''/'' then Disjoint else MoreSpecific)
      else if s1 = s2 then Equivalent
      else Disjoint)"

definition inverseRelationship :: "relationship \<Rightarrow> relationship" where
  "inverseRelationship r =
     (case r of MoreSpecific \<Rightarrow> MoreGeneral | MoreGeneral \<Rightarrow> MoreSpecific | _ \<Rightarrow> r)"

definition combineRelationships :: "relationship \<Rightarrow> relationship \<Rightarrow> relationship" where
  "combineRelationships r1 r2 =
     (case r1 of
        Equivalent \<Rightarrow> r2
      | Disjoint \<Rightarrow> Disjoint
      | Overlaps \<Rightarrow> (if r2 = Disjoint then Disjoint else Overlaps)
      | _ \<Rightarrow>
          (if r2 = Equivalent then r1
           else if r2 = inverseRelationship r1 then Overlaps
           else r2))"

text \<open>
  The loop of \<^verbatim>\<open>comparePaths\<close> over corresponding segments: it ends when the patterns
  are found disjoint or one of them has no segment left.
\<close>

fun compare_loop ::
  "relationship \<Rightarrow> segment list \<Rightarrow> segment list \<Rightarrow> relationship \<times> segment list \<times> segment list" where
  "compare_loop rel (a # as) (b # bs) =
     (let rel' = combineRelationships rel (compareSegments a b)
      in if rel' = Disjoint then (Disjoint, [], []) else compare_loop rel' as bs)"
| "compare_loop rel as bs = (rel, as, bs)"

definition last_multi :: "segment list \<Rightarrow> bool" where
  "last_multi segs = (segs \<noteq> [] \<and> is_multi (last segs))"

definition comparePaths :: "segment list \<Rightarrow> segment list \<Rightarrow> relationship" where
  "comparePaths p1 p2 =
     (if length p1 \<noteq> length p2 \<and> \<not> last_multi p1 \<and> \<not> last_multi p2 then Disjoint
      else
        case compare_loop Equivalent p1 p2 of
          (rel, segs1, segs2) \<Rightarrow>
            if rel = Disjoint then Disjoint
            else if segs1 = [] \<and> segs2 = [] then rel
            else if length segs1 < length segs2 \<and> last_multi p1
            then combineRelationships rel MoreGeneral
            else if length segs2 < length segs1 \<and> last_multi p2
            then combineRelationships rel MoreSpecific
            else Disjoint)"

text \<open>
  \<^verbatim>\<open>conflictsWith\<close> for two patterns without method and host: they conflict when
  neither is more specific than the other and they are not disjoint.
\<close>

definition conflictsWith :: "segment list \<Rightarrow> segment list \<Rightarrow> bool" where
  "conflictsWith p1 p2 =
     (let rel = comparePaths p1 p2 in rel = Equivalent \<or> rel = Overlaps)"

text \<open>
  \<^verbatim>\<open>ServeMux.Handle(pattern, handler)\<close> panics when the pattern does not parse or
  conflicts with a registered pattern (for two equal patterns,
  \<^verbatim>\<open>http: multiple registrations\<close>); \<open>None\<close> is the panic.
\<close>

definition ServeMux_Handle :: "string \<Rightarrow> string list \<Rightarrow> string list option" where
  "ServeMux_Handle pattern mux =
     (case parsePattern pattern of
        None \<Rightarrow> None
      | Some segs \<Rightarrow>
          if list_ex
               (\<lambda>q. case parsePattern q of None \<Rightarrow> False | Some segs2 \<Rightarrow> conflictsWith segs segs2)
               mux
          then None
          else Some (mux @ [pattern]))"

text \<open>
  The \<^verbatim>\<open>HTTPServer\<close> hook of \<^verbatim>\<open>LoadProfile\<close>: it registers
  \<^verbatim>\<open>/profiles/<profileID><handlerPath>\<close> for every handler path and returns nil. A panic
  of \<^verbatim>\<open>Handle\<close> leaves the registrations made before it.
\<close>

fun HTTPServer :: "string \<Rightarrow> string list \<Rightarrow> string list \<Rightarrow> outcome \<times> string list" where
  "HTTPServer profileID [] mux = (Nil, mux)"
| "HTTPServer profileID (handlerPath # rest) mux =
     (case ServeMux_Handle (''/profiles/'' @ profileID @ handlerPath) mux of
        None \<Rightarrow> (Panic, mux)
      | Some mux' \<Rightarrow> HTTPServer profileID rest mux')"

text \<open>
  \<^verbatim>\<open>sort.Slice\<close> with the comparison \<open>lt\<close> (Go's \<^verbatim>\<open>less\<close>): insertion sort, each element moved
  towards the front while it is less than its predecessor (what Go runs on slices of
  fewer than twelve elements). \<open>insert_back\<close> works on the reversed sorted prefix.
  \<^verbatim>\<open>sort.Slice\<close> is not stable: on longer slices Go may order elements that compare equal
  differently. The result is a permutation ordered by \<open>lt\<close> in either case, and it is
  the same list whenever no two elements compare equal.
\<close>

fun insert_back :: "('a \<Rightarrow> 'a \<Rightarrow> bool) \<Rightarrow> 'a \<Rightarrow> 'a list \<Rightarrow> 'a list" where
  "insert_back lt x [] = [x]"
| "insert_back lt x (y # ys) =
     (if lt x y then y # insert_back lt x ys else x # y # ys)"

definition sort_Slice :: "('a \<Rightarrow> 'a \<Rightarrow> bool) \<Rightarrow> 'a list \<Rightarrow> 'a list" where
  "sort_Slice lt xs = rev (foldl (\<lambda>acc x. insert_back lt x acc) [] xs)"

text \<open>\<^verbatim>\<open>h.Profiles[i].ModTime.After(h.Profiles[j].ModTime)\<close>\<close>

definition After :: "ProfileInfo \<Rightarrow> ProfileInfo \<Rightarrow> bool" where
  "After a b = (ModTime b < ModTime a)"

text \<open>
  \<^verbatim>\<open>LoadProfile\<close>. The handler is returned in every case, since the hook may have
  registered patterns before a panic.
\<close>

definition LoadProfile ::
  "'p externals \<Rightarrow> filesystem \<Rightarrow> string \<Rightarrow> Handler \<Rightarrow> outcome \<times> Handler" where
  "LoadProfile ext fs path h =
     (case os_Stat fs path of
        Inl e \<Rightarrow> (Err e, h)
      | Inr fileInfo \<Rightarrow>
          (case os_Open fs path of
             Inl e \<Rightarrow> (Err e, h)
           | Inr file \<Rightarrow>
               (let profileID = profileID_of path
                in case profile_Parse ext file of
                     None \<Rightarrow> (Err ParseError, h)
                   | Some pprof \<Rightarrow>
                       (case driver_Handlers ext pprof of
                          None \<Rightarrow> (Err DriverError, h)
                        | Some handlers \<Rightarrow>
                            (case HTTPServer profileID handlers (ProfileMux h) of
                               (Nil, mux) \<Rightarrow>
                                 (Nil,
                                  h\<lparr>ProfileMux := mux,
                                    Profiles :=
                                      sort_Slice After
                                        (Profiles h @
                                         [\<lparr>Name = profileID, ModTime = modTime fileInfo\<rparr>])\<rparr>)
                             | (r, mux) \<Rightarrow> (r, h\<lparr>ProfileMux := mux\<rparr>))))))"

text \<open>
  The loop of \<^verbatim>\<open>run\<close> over the globbed paths (the spec's reconciliation): an error of
  \<^verbatim>\<open>LoadProfile\<close> is logged and the loop goes on; a panic ends the process.
\<close>

fun Reconcile ::
  "'p externals \<Rightarrow> filesystem \<Rightarrow> string list \<Rightarrow> Handler \<Rightarrow> outcome \<times> Handler" where
  "Reconcile ext fs [] h = (Nil, h)"
| "Reconcile ext fs (path # paths) h =
     (case LoadProfile ext fs path h of
        (Panic, h') \<Rightarrow> (Panic, h')
      | (_, h') \<Rightarrow> Reconcile ext fs paths h')"

definition new_Handler :: "string \<Rightarrow> string \<Rightarrow> Handler" where
  "new_Handler uploadToken profilesDir =
     \<lparr>UploadToken = uploadToken, ProfilesDir = profilesDir, ProfileMux = [], Profiles = []\<rparr>"

text \<open>\<^verbatim>\<open>run\<close> up to the call of \<^verbatim>\<open>http.ListenAndServe\<close>.\<close>

definition run :: "'p externals \<Rightarrow> filesystem \<Rightarrow> string \<Rightarrow> outcome \<times> Handler" where
  "run ext fs uploadToken =
     (let profilesDir = ''profiles''
      in Reconcile ext fs (filepath_Glob fs profilesDir) (new_Handler uploadToken profilesDir))"

text \<open>
  A sequence of \<^verbatim>\<open>LoadProfile\<close> calls on one handler, each with the file system of its
  moment; the server goes on after an error and after a panic inside a request.
\<close>

fun loads :: "'p externals \<Rightarrow> (filesystem \<times> string) list \<Rightarrow> Handler \<Rightarrow> Handler" where
  "loads ext [] h = h"
| "loads ext ((fs, path) # rest) h = loads ext rest (snd (LoadProfile ext fs path h))"

subsection \<open>Requests and responses\<close>

text \<open>
  \<^verbatim>\<open>http.ResponseWriter\<close>: the status is set by the first \<^verbatim>\<open>WriteHeader\<close>, or to 200 by
  the first write; a handler that returns without either gets 200 from the server.
\<close>

record ResponseWriter =
  status :: "nat option"
  written :: string

definition new_ResponseWriter :: ResponseWriter where
  "new_ResponseWriter = \<lparr>status = None, written = []\<rparr>"

definition WriteHeader :: "nat \<Rightarrow> ResponseWriter \<Rightarrow> ResponseWriter" where
  "WriteHeader code w = (if status w = None then w\<lparr>status := Some code\<rparr> else w)"

definition Fprintf :: "string \<Rightarrow> ResponseWriter \<Rightarrow> ResponseWriter" where
  "Fprintf s w =
     w\<lparr>status := Some (case status w of None \<Rightarrow> 200 | Some c \<Rightarrow> c), written := written w @ s\<rparr>"

definition response_code :: "ResponseWriter \<Rightarrow> nat" where
  "response_code w = (case status w of None \<Rightarrow> 200 | Some c \<Rightarrow> c)"

text \<open>
  What the client sent: path, method, the \<^verbatim>\<open>x-upload-token\<close> header (empty when
  absent), the form value \<^verbatim>\<open>name\<close> (empty when absent) and the bytes of the form file
  \<^verbatim>\<open>pprof\<close> (\<open>None\<close> when \<^verbatim>\<open>FormFile\<close> returns an error).
\<close>

record Request =
  Path :: string
  Method :: string
  x_upload_token :: string
  form_name :: string
  form_pprof :: "string option"

text \<open>What the request does not decide: the clock of the file system, a failing copy.\<close>

record environment =
  clock :: time
  write_fault :: "nat option"

text \<open>
  How a handler ends: it returns with the response written so far, it panics (the server
  recovers and drops the connection), or the request was passed to \<open>ProfileMux\<close>, whose
  registered handlers are the engine's.
\<close>

datatype reply = Reply ResponseWriter | Panicked | ServedByProfileMux

definition index_entry :: "'p externals \<Rightarrow> ProfileInfo \<Rightarrow> string" where
  "index_entry ext profile =
     ''<div><a href='' @ [CHR 0x22] @ ''/profiles/'' @ Name profile @ [CHR 0x22] @ ''>'' @
     Name profile @ '' ('' @ time_Format ext (ModTime profile) @ '')</a></div>''"

definition index :: "'p externals \<Rightarrow> Handler \<Rightarrow> ResponseWriter \<Rightarrow> ResponseWriter" where
  "index ext h w =
     Fprintf (''</body></html>'' @ [CHR 0x0A])
       (foldl (\<lambda>w profile. Fprintf (index_entry ext profile) w)
          (Fprintf ''<html><body>'' w) (Profiles h))"

definition upload ::
  "'p externals \<Rightarrow> environment \<Rightarrow> Request \<Rightarrow> Handler \<Rightarrow> filesystem \<Rightarrow> ResponseWriter \<Rightarrow>
     reply \<times> Handler \<times> filesystem" where
  "upload ext env r h fs w =
     (if x_upload_token r \<noteq> UploadToken h then (Reply (WriteHeader 401 w), h, fs)
      else
        let profileName = form_name r
        in if \<not> MatchString profileNameRegexp profileName
           then (Reply (WriteHeader 400 w), h, fs)
           else
             let profilePath = filepath_Join (ProfilesDir h) (profileName @ ''.pprof'')
             in case os_OpenFile (clock env) fs profilePath of
                  Inl e \<Rightarrow> (Reply (WriteHeader 500 w), h, fs)
                | Inr fs1 \<Rightarrow>
                    (case form_pprof r of
                       None \<Rightarrow> (Reply (WriteHeader 500 w), h, fs1)
                     | Some file \<Rightarrow>
                         (case io_Copy (write_fault env) (clock env) fs1 profilePath file of
                            (Some e, fs2) \<Rightarrow> (Reply (WriteHeader 500 w), h, fs2)
                          | (None, fs2) \<Rightarrow>
                              (case LoadProfile ext fs2 profilePath h of
                                 (Err e, h') \<Rightarrow> (Reply (WriteHeader 500 w), h', fs2)
                               | (Panic, h') \<Rightarrow> (Panicked, h', fs2)
                               | (Nil, h') \<Rightarrow>
                                   (Reply
                                      (Fprintf (''/profiles/'' @ profileName @ [CHR 0x0A])
                                         (WriteHeader 201 w)),
                                    h', fs2)))))"

definition ServeHTTP ::
  "'p externals \<Rightarrow> environment \<Rightarrow> Request \<Rightarrow> Handler \<Rightarrow> filesystem \<Rightarrow> ResponseWriter \<Rightarrow>
     reply \<times> Handler \<times> filesystem" where
  "ServeHTTP ext env r h fs w =
     (if Path r = ''/'' then
        (if Method r = ''GET'' then (Reply (index ext h w), h, fs) else (Reply w, h, fs))
      else if Path r = ''/upload'' then
        (if Method r = ''POST'' then upload ext env r h fs w else (Reply w, h, fs))
      else if strings_HasPrefix (Path r) ''/profiles/'' then (ServedByProfileMux, h, fs)
      else (Reply (WriteHeader 404 w), h, fs))"

text \<open>The status line the client receives for a reply of the handler.\<close>

definition status_sent :: "reply \<Rightarrow> nat option" where
  "status_sent rep = (case rep of Reply w \<Rightarrow> Some (response_code w) | _ \<Rightarrow> None)"

subsection \<open>Notions used in the properties\<close>

text \<open>What the calls before the hook decide: the handler paths, when all of them succeed.\<close>

definition handlers_of :: "'p externals \<Rightarrow> filesystem \<Rightarrow> string \<Rightarrow> (time \<times> string list) option" where
  "handlers_of ext fs path =
     (case os_Stat fs path of
        Inl e \<Rightarrow> None
      | Inr fileInfo \<Rightarrow>
          (case os_Open fs path of
             Inl e \<Rightarrow> None
           | Inr bytes \<Rightarrow>
               (case profile_Parse ext bytes of
                  None \<Rightarrow> None
                | Some pprof \<Rightarrow> map_option (Pair (modTime fileInfo)) (driver_Handlers ext pprof))))"

text \<open>
  The snapshots a sequence of loads has loaded: for every call that returned nil, the
  record of the snapshot (its identifier and the modification time of its file at the
  call) and the handler paths the engine asked to mount.
\<close>

fun loaded ::
  "'p externals \<Rightarrow> (filesystem \<times> string) list \<Rightarrow> Handler \<Rightarrow> (ProfileInfo \<times> string list) list" where
  "loaded ext [] h = []"
| "loaded ext ((fs, path) # rest) h =
     (case LoadProfile ext fs path h of
        (Nil, h') \<Rightarrow>
          (case handlers_of ext fs path of
             None \<Rightarrow> loaded ext rest h'
           | Some (t, hs) \<Rightarrow> (\<lparr>Name = profileID_of path, ModTime = t\<rparr>, hs) # loaded ext rest h')
      | (_, h') \<Rightarrow> loaded ext rest h')"





text \<open>
  The server after start: requests are served one after the other, each with its own
  environment; the handler and the file system a request leaves are those the next finds.
\<close>

fun serve ::
  "'p externals \<Rightarrow> (environment \<times> Request) list \<Rightarrow> Handler \<times> filesystem \<Rightarrow>
     Handler \<times> filesystem" where
  "serve ext [] s = s"
| "serve ext ((env, r) # rest) s =
     serve ext rest (snd (ServeHTTP ext env r (fst s) (snd s) new_ResponseWriter))"

subsection \<open>A sample instance of the collaborators\<close>

text \<open>
  A parser that accepts the inputs starting with \<^verbatim>\<open>PROF\<close> and an engine with three
  views, for evaluating the model on concrete inputs.
\<close>

definition sample_externals :: "string externals" where
  "sample_externals =
     \<lparr>profile_Parse = (\<lambda>bytes. if strings_HasPrefix bytes ''PROF'' then Some bytes else None),
      driver_Handlers = (\<lambda>p. Some [''/'', ''/top'', ''/flamegraph'']),
      time_Format = (\<lambda>t. ''T'')\<rparr>"

text \<open>A catalog directory with one snapshot the sample parser accepts and one it rejects.\<close>

definition sample_directory :: filesystem where
  "sample_directory =
     [(''profiles/a.pprof'',
       \<lparr>content = ''PROF-a'', modTime = 7, readable = True, writable = True\<rparr>),
      (''profiles/b.pprof'',
       \<lparr>content = ''garbage'', modTime = 9, readable = True, writable = True\<rparr>)]"


text \<open>Two uploads with the right token, one after the other.\<close>

definition sample_requests :: "(environment \<times> Request) list" where
  "sample_requests =
     [(\<lparr>clock = 7, write_fault = None\<rparr>,
       \<lparr>Path = ''/upload'', Method = ''POST'', x_upload_token = ''pprof'',
        form_name = ''svc-a'', form_pprof = Some ''PROF1''\<rparr>),
      (\<lparr>clock = 9, write_fault = None\<rparr>,
       \<lparr>Path = ''/upload'', Method = ''POST'', x_upload_token = ''pprof'',
        form_name = ''svc-b'', form_pprof = Some ''PROF2''\<rparr>)]"

text \<open>The handler and the files the two uploads leave on a server started empty.\<close>

definition sample_handler :: Handler where
  "sample_handler =
     \<lparr>UploadToken = ''pprof'', ProfilesDir = ''profiles'',
      ProfileMux = [''/profiles/svc-a/'', ''/profiles/svc-a/top'', ''/profiles/svc-a/flamegraph'',
                    ''/profiles/svc-b/'', ''/profiles/svc-b/top'', ''/profiles/svc-b/flamegraph''],
      Profiles = [\<lparr>Name = ''svc-b'', ModTime = 9\<rparr>, \<lparr>Name = ''svc-a'', ModTime = 7\<rparr>]\<rparr>"

definition sample_files :: filesystem where
  "sample_files =
     [(''profiles/svc-a.pprof'',
       \<lparr>content = ''PROF1'', modTime = 7, readable = True, writable = True\<rparr>),
      (''profiles/svc-b.pprof'',
       \<lparr>content = ''PROF2'', modTime = 9, readable = True, writable = True\<rparr>)]"

section \<open>Properties\<close>

subsection \<open>The matcher\<close>

lemma nullable_lang: "nullable r \<longleftrightarrow> [] \<in> lang r"
  by (induction r) (auto intro: star.intros)

lemma star_Cons_iff:
  "c # s \<in> star L \<longleftrightarrow> (\<exists>u v. c # u \<in> L \<and> v \<in> star L \<and> s = u @ v)"
proof
  assume "c # s \<in> star L"
  then show "\<exists>u v. c # u \<in> L \<and> v \<in> star L \<and> s = u @ v"
  proof (induction "c # s" arbitrary: rule: star.induct)
    case (star_app u v)
    then show ?case
      by (cases u) auto
  qed
next
  assume "\<exists>u v. c # u \<in> L \<and> v \<in> star L \<and> s = u @ v"
  then obtain u v where "c # u \<in> L" "v \<in> star L" "s = u @ v" by blast
  then have "(c # u) @ v \<in> star L" by (intro star.star_app)
  then show "c # s \<in> star L" using \<open>s = u @ v\<close> by simp
qed

lemma deriv_lang: "s \<in> lang (deriv c r) \<longleftrightarrow> c # s \<in> lang r"
proof (induction r arbitrary: s)
  case (Cat r1 r2)
  then show ?case
    by (auto simp: nullable_lang Cons_eq_append_conv)
next
  case (Star r)
  then show ?case
    by (auto simp: star_Cons_iff)
qed auto

lemma foldl_deriv_lang: "nullable (foldl (\<lambda>q c. deriv c q) r s) \<longleftrightarrow> s \<in> lang r"
  by (induction s arbitrary: r) (simp_all add: nullable_lang deriv_lang)

lemma MatchString_lang: "MatchString r s \<longleftrightarrow> s \<in> lang r"
  by (simp add: MatchString_def foldl_deriv_lang)

lemma star_Class: "s \<in> star (lang (Class rs)) \<longleftrightarrow> list_all (in_class rs) s"
proof
  assume "s \<in> star (lang (Class rs))"
  then show "list_all (in_class rs) s"
    by (induction rule: star.induct) auto
next
  assume "list_all (in_class rs) s"
  then show "s \<in> star (lang (Class rs))"
  proof (induction s)
    case Nil
    show ?case by (rule star.star_nil)
  next
    case (Cons c s)
    then have "[c] \<in> lang (Class rs)" "s \<in> star (lang (Class rs))" by simp_all
    then have "[c] @ s \<in> star (lang (Class rs))" by (rule star.star_app)
    then show ?case by simp
  qed
qed

lemma lang_Plus_Class: "s \<in> lang (Plus (Class rs)) \<longleftrightarrow> s \<noteq> [] \<and> list_all (in_class rs) s"
proof
  assume "s \<in> lang (Plus (Class rs))"
  then obtain u v where uv: "s = u @ v" "u \<in> lang (Class rs)" "v \<in> star (lang (Class rs))"
    unfolding Plus_def lang.simps by blast
  from uv(2) obtain c where c: "u = [c]" "in_class rs c" by auto
  from uv(3) have "list_all (in_class rs) v" by (simp only: star_Class)
  with uv(1) c show "s \<noteq> [] \<and> list_all (in_class rs) s" by simp
next
  assume a: "s \<noteq> [] \<and> list_all (in_class rs) s"
  then obtain c v where s: "s = c # v" by (cases s) auto
  with a have "in_class rs c" "list_all (in_class rs) v" by simp_all
  then have "[c] \<in> lang (Class rs)" "v \<in> star (lang (Class rs))"
    by (simp, simp only: star_Class)
  then have "[c] @ v \<in> lang (Cat (Class rs) (Star (Class rs)))"
    unfolding lang.simps by blast
  with s show "s \<in> lang (Plus (Class rs))" by (simp add: Plus_def)
qed

lemma mem_set_of_char: "c \<in> set xs \<longleftrightarrow> (of_char c :: nat) \<in> set (map of_char xs)"
  by (induction xs) auto

lemma identifier_codes:
  "map of_char ''abcdefghijklmnopqrstuvwxyzABCDEFGHIJKLMNOPQRSTUVWXYZ0123456789_-'' =
     [97..<123] @ [65..<91] @ [48..<58] @ [95, 45 :: nat]"
  by simp

lemma name_class_codes:
  "in_class [(CHR ''a'', CHR ''z''), (CHR ''A'', CHR ''Z''), (CHR ''0'', CHR ''9''),
             (CHR ''_'', CHR ''_''), (CHR ''-'', CHR ''-'')] c \<longleftrightarrow>
   (of_char c :: nat) \<in> set ([97..<123] @ [65..<91] @ [48..<58] @ [95, 45 :: nat])"
proof -
  define n where "n = (of_char c :: nat)"
  have "in_class [(CHR ''a'', CHR ''z''), (CHR ''A'', CHR ''Z''), (CHR ''0'', CHR ''9''),
             (CHR ''_'', CHR ''_''), (CHR ''-'', CHR ''-'')] c \<longleftrightarrow>
        (97 \<le> n \<and> n \<le> 122) \<or> (65 \<le> n \<and> n \<le> 90) \<or> (48 \<le> n \<and> n \<le> 57) \<or> (95 \<le> n \<and> n \<le> 95) \<or> (45 \<le> n \<and> n \<le> 45)"
    by (simp add: in_class_def in_range_def n_def)
  also have "\<dots> \<longleftrightarrow> n \<in> set ([97..<123] @ [65..<91] @ [48..<58] @ [95, 45 :: nat])"
    unfolding set_append set_upt by (simp only: Un_iff atLeastLessThan_iff list.set insert_iff empty_iff) arith
  finally show ?thesis unfolding n_def .
qed

lemma name_class_chars:
  "in_class [(CHR ''a'', CHR ''z''), (CHR ''A'', CHR ''Z''), (CHR ''0'', CHR ''9''),
             (CHR ''_'', CHR ''_''), (CHR ''-'', CHR ''-'')] c \<longleftrightarrow> c \<in> identifier_chars"
  unfolding name_class_codes identifier_chars_def mem_set_of_char [of c] identifier_codes ..

lemma MatchString_profileName:
  "MatchString profileNameRegexp s \<longleftrightarrow> s \<noteq> [] \<and> set s \<subseteq> identifier_chars"
  unfolding profileNameRegexp_def MatchString_lang lang_Plus_Class
  by (simp add: name_class_chars list_all_iff subset_eq)

subsection \<open>The file system\<close>

lemma map_of_update_same: "map_of (AList.update k v al) k = Some v"
  by (simp add: update_conv')

subsection \<open>The multiplexer\<close>

lemma compareSegments_refl: "compareSegments s s = Equivalent"
  by (cases s) (simp_all add: compareSegments_def is_multi_def is_wild_def)

lemma compare_loop_refl: "compare_loop Equivalent p p = (Equivalent, [], [])"
  by (induction p) (simp_all add: compareSegments_refl combineRelationships_def)

lemma comparePaths_refl: "comparePaths p p = Equivalent"
  by (simp add: comparePaths_def compare_loop_refl)

lemma ServeMux_Handle_registered:
  "pattern \<in> set mux \<Longrightarrow> ServeMux_Handle pattern mux = None"
proof (cases "parsePattern pattern")
  case None
  then show ?thesis by (simp add: ServeMux_Handle_def)
next
  case (Some segs)
  assume "pattern \<in> set mux"
  with Some have "list_ex (\<lambda>q. case parsePattern q of None \<Rightarrow> False
      | Some segs2 \<Rightarrow> conflictsWith segs segs2) mux"
    unfolding list_ex_iff by (auto simp: conflictsWith_def comparePaths_refl intro!: bexI [of _ pattern])
  with Some show ?thesis by (simp add: ServeMux_Handle_def)
qed

lemma ServeMux_Handle_Some:
  "ServeMux_Handle pattern mux = Some mux' \<Longrightarrow> mux' = mux @ [pattern] \<and> pattern \<notin> set mux"
  using ServeMux_Handle_registered [of pattern mux]
  by (auto simp: ServeMux_Handle_def split: option.splits if_splits)










subsection \<open>Sorting, routes and the catalog\<close>

lemma mset_insert_back: "mset (insert_back lt x ys) = add_mset x (mset ys)"
  by (induction ys) simp_all

lemma mset_foldl_insert_back:
  "mset (foldl (\<lambda>acc x. insert_back lt x acc) acc xs) = mset acc + mset xs"
  by (induction xs arbitrary: acc) (simp_all add: mset_insert_back)

lemma mset_sort_Slice: "mset (sort_Slice lt xs) = mset xs"
  by (simp add: sort_Slice_def mset_foldl_insert_back)


lemma set_insert_back: "set (insert_back lt x ys) = insert x (set ys)"
  using mset_insert_back [of lt x ys] by (metis set_mset_mset set_mset_add_mset_insert)

lemma sorted_insert_back:
  "sorted_wrt (\<lambda>a b. ModTime a \<le> ModTime b) ys \<Longrightarrow>
   sorted_wrt (\<lambda>a b. ModTime a \<le> ModTime b) (insert_back After x ys)"
  by (induction ys) (auto simp: After_def set_insert_back)

lemma sorted_foldl_insert_back:
  "sorted_wrt (\<lambda>a b. ModTime a \<le> ModTime b) acc \<Longrightarrow>
   sorted_wrt (\<lambda>a b. ModTime a \<le> ModTime b) (foldl (\<lambda>acc x. insert_back After x acc) acc xs)"
  by (induction xs arbitrary: acc) (simp_all add: sorted_insert_back)

lemma sorted_sort_Slice:
  "sorted_wrt (\<lambda>a b. ModTime b \<le> ModTime a) (sort_Slice After xs)"
proof -
  have "sorted_wrt (\<lambda>a b. ModTime a \<le> ModTime b) (foldl (\<lambda>acc x. insert_back After x acc) [] xs)"
    by (rule sorted_foldl_insert_back) simp
  then show ?thesis
    by (simp add: sort_Slice_def sorted_wrt_rev)
qed

lemma HTTPServer_not_Err: "fst (HTTPServer pid hs mux) \<noteq> Err e"
  by (induction hs arbitrary: mux) (simp_all split: option.splits)

lemma HTTPServer_mono: "set mux \<subseteq> set (snd (HTTPServer pid hs mux))"
proof (induction hs arbitrary: mux)
  case Nil
  show ?case by simp
next
  case (Cons hp hs)
  show ?case
  proof (cases "ServeMux_Handle (''/profiles/'' @ pid @ hp) mux")
    case None
    then show ?thesis by simp
  next
    case (Some mux')
    then have "set mux \<subseteq> set mux'"
      using ServeMux_Handle_Some [of "''/profiles/'' @ pid @ hp" mux mux'] by auto
    with Cons [of mux'] Some show ?thesis by auto
  qed
qed

lemma HTTPServer_Nil:
  "HTTPServer pid hs mux = (Nil, mux') \<Longrightarrow>
   mux' = mux @ map (\<lambda>hp. ''/profiles/'' @ pid @ hp) hs \<and>
   (\<forall>hp \<in> set hs. ''/profiles/'' @ pid @ hp \<notin> set mux)"
proof (induction hs arbitrary: mux)
  case Nil
  then show ?case by simp
next
  case (Cons hp hs)
  from Cons.prems obtain mux1 where
    h: "ServeMux_Handle (''/profiles/'' @ pid @ hp) mux = Some mux1"
    and r: "HTTPServer pid hs mux1 = (Nil, mux')"
    by (auto split: option.splits)
  from h have m1: "mux1 = mux @ [''/profiles/'' @ pid @ hp]" and new: "''/profiles/'' @ pid @ hp \<notin> set mux"
    using ServeMux_Handle_Some [of "''/profiles/'' @ pid @ hp" mux mux1] by simp_all
  from Cons.IH [OF r] m1 new show ?case by auto
qed

lemma LoadProfile_None:
  "handlers_of ext fs path = None \<Longrightarrow> \<exists>e. LoadProfile ext fs path h = (Err e, h)"
  by (auto simp: handlers_of_def LoadProfile_def split: sum.splits option.splits)

lemma LoadProfile_Some:
  "handlers_of ext fs path = Some (t, hs) \<Longrightarrow>
   LoadProfile ext fs path h =
     (case HTTPServer (profileID_of path) hs (ProfileMux h) of
        (Nil, mux) \<Rightarrow>
          (Nil, h\<lparr>ProfileMux := mux,
                  Profiles := sort_Slice After (Profiles h @ [\<lparr>Name = profileID_of path, ModTime = t\<rparr>])\<rparr>)
      | (r, mux) \<Rightarrow> (r, h\<lparr>ProfileMux := mux\<rparr>))"
  by (auto simp: handlers_of_def LoadProfile_def Let_def split: sum.splits option.splits)


text \<open>The catalog after one call: unchanged, or the sorted catalog with the new record.\<close>

lemma LoadProfile_Profiles:
  "Profiles (snd (LoadProfile ext fs path h)) = Profiles h \<or>
   (\<exists>t. Profiles (snd (LoadProfile ext fs path h)) =
          sort_Slice After (Profiles h @ [\<lparr>Name = profileID_of path, ModTime = t\<rparr>]))"
proof (cases "handlers_of ext fs path")
  case None
  from LoadProfile_None [OF this, of h] show ?thesis by auto
next
  case (Some a)
  then obtain t hs where "handlers_of ext fs path = Some (t, hs)" by (cases a) auto
  from LoadProfile_Some [OF this, of h] show ?thesis
    by (auto split: prod.splits outcome.splits)
qed

lemma LoadProfile_sorted:
  "sorted_wrt (\<lambda>a b. ModTime b \<le> ModTime a) (Profiles h) \<Longrightarrow>
   sorted_wrt (\<lambda>a b. ModTime b \<le> ModTime a) (Profiles (snd (LoadProfile ext fs path h)))"
  using LoadProfile_Profiles [of ext fs path h] by (auto simp: sorted_sort_Slice)

lemma loads_sorted:
  "sorted_wrt (\<lambda>a b. ModTime b \<le> ModTime a) (Profiles h) \<Longrightarrow>
   sorted_wrt (\<lambda>a b. ModTime b \<le> ModTime a) (Profiles (loads ext steps h))"
  by (induction steps arbitrary: h) (auto simp: LoadProfile_sorted)



lemma written_Fprintf: "written (Fprintf s w) = written w @ s"
  by (simp add: Fprintf_def)

lemma written_foldl_Fprintf:
  "written (foldl (\<lambda>w x. Fprintf (f x) w) w xs) = written w @ concat (map f xs)"
  by (induction xs arbitrary: w) (simp_all add: written_Fprintf)

lemma written_index:
  "written (index ext h new_ResponseWriter) =
     ''<html><body>'' @ concat (map (index_entry ext) (Profiles h)) @ ''</body></html>'' @ [CHR 0x0A]"
  by (simp add: index_def written_foldl_Fprintf written_Fprintf new_ResponseWriter_def)

subsection \<open>Paths, routes and the reconciliation\<close>














subsection \<open>The sample directory, evaluated\<close>





lemma load_again_ev:
  "LoadProfile sample_externals sample_directory ''profiles/a.pprof''
     \<lparr>UploadToken = ''pprof'', ProfilesDir = ''profiles'',
      ProfileMux = [''/profiles/a/'', ''/profiles/a/top'', ''/profiles/a/flamegraph''],
      Profiles = [\<lparr>Name = ''a'', ModTime = 7\<rparr>]\<rparr> =
   (Panic, \<lparr>UploadToken = ''pprof'', ProfilesDir = ''profiles'',
      ProfileMux = [''/profiles/a/'', ''/profiles/a/top'', ''/profiles/a/flamegraph''],
      Profiles = [\<lparr>Name = ''a'', ModTime = 7\<rparr>]\<rparr>)"
  by code_simp






lemma svc_id_ev:
  "profileID_of ''profiles/svc-a.pprof'' = ''svc-a''"
  "profileID_of ''profiles/svc-b.pprof'' = ''svc-b''"
  by (simp_all add: profileID_of_def filepath_Base_def filepath_Ext_def last_element_def
      strings_TrimSuffix_def strings_HasSuffix_def)

lemma run_empty_ev: "run sample_externals [] ''pprof'' = (Nil, new_Handler ''pprof'' ''profiles'')"
  by (simp add: run_def Let_def filepath_Glob_def)

lemma upload_a_ev:
  "ServeHTTP sample_externals \<lparr>clock = 7, write_fault = None\<rparr>
     \<lparr>Path = ''/upload'', Method = ''POST'', x_upload_token = ''pprof'',
      form_name = ''svc-a'', form_pprof = Some ''PROF1''\<rparr>
     (new_Handler ''pprof'' ''profiles'') [] new_ResponseWriter =
   (Reply \<lparr>status = Some 201, written = ''/profiles/svc-a'' @ [CHR 0x0A]\<rparr>,
    \<lparr>UploadToken = ''pprof'', ProfilesDir = ''profiles'',
      ProfileMux = [''/profiles/svc-a/'', ''/profiles/svc-a/top'', ''/profiles/svc-a/flamegraph''],
      Profiles = [\<lparr>Name = ''svc-a'', ModTime = 7\<rparr>]\<rparr>,
    [(''profiles/svc-a.pprof'',
       \<lparr>content = ''PROF1'', modTime = 7, readable = True, writable = True\<rparr>)])"
  by code_simp

lemma upload_b_ev:
  "ServeHTTP sample_externals \<lparr>clock = 9, write_fault = None\<rparr>
     \<lparr>Path = ''/upload'', Method = ''POST'', x_upload_token = ''pprof'',
      form_name = ''svc-b'', form_pprof = Some ''PROF2''\<rparr>
    \<lparr>UploadToken = ''pprof'', ProfilesDir = ''profiles'',
      ProfileMux = [''/profiles/svc-a/'', ''/profiles/svc-a/top'', ''/profiles/svc-a/flamegraph''],
      Profiles = [\<lparr>Name = ''svc-a'', ModTime = 7\<rparr>]\<rparr>
    [(''profiles/svc-a.pprof'',
       \<lparr>content = ''PROF1'', modTime = 7, readable = True, writable = True\<rparr>)]
    new_ResponseWriter =
   (Reply \<lparr>status = Some 201, written = ''/profiles/svc-b'' @ [CHR 0x0A]\<rparr>,
    sample_handler, sample_files)"
  by code_simp

lemma serve_ev:
  "serve sample_externals sample_requests (snd (run sample_externals [] ''pprof''), []) =
     (sample_handler, sample_files)"
  unfolding sample_requests_def run_empty_ev serve.simps snd_conv fst_conv upload_a_ev upload_b_ev
  ..

lemma upload_again_ev:
  "ServeHTTP sample_externals \<lparr>clock = 11, write_fault = None\<rparr>
     \<lparr>Path = ''/upload'', Method = ''POST'', x_upload_token = ''pprof'',
      form_name = ''svc-a'', form_pprof = Some ''PROF3''\<rparr>
     sample_handler sample_files new_ResponseWriter =
   (Panicked, sample_handler,
    [(''profiles/svc-a.pprof'',
       \<lparr>content = ''PROF3'', modTime = 11, readable = True, writable = True\<rparr>),
     (''profiles/svc-b.pprof'',
       \<lparr>content = ''PROF2'', modTime = 9, readable = True, writable = True\<rparr>)])"
  by code_simp


subsection \<open>The handlers the server reaches\<close>









subsection \<open>Uniqueness of identifiers\<close>





subsection \<open>Identifier validation\<close>

text \<open>
  Claim C6. \<^verbatim>\<open>profileNameRegexp\<close> accepts exactly the non-empty strings over letters,
  digits, \<^verbatim>\<open>_\<close> and \<^verbatim>\<open>-\<close>. It rejects the empty string, \<^verbatim>\<open>../etc\<close>, \<^verbatim>\<open>a/b\<close> and
  \<^verbatim>\<open>a b\<close>, and accepts \<^verbatim>\<open>prof_1-2\<close>. An upload with the right token and a rejected
  name is answered 400, and neither the handler nor the file system changes.
\<close>

theorem C6_identifier_validation:
  "(MatchString profileNameRegexp s \<longleftrightarrow> s \<noteq> [] \<and> set s \<subseteq> identifier_chars) \<and>
   \<not> MatchString profileNameRegexp '''' \<and>
   \<not> MatchString profileNameRegexp ''../etc'' \<and>
   \<not> MatchString profileNameRegexp ''a/b'' \<and>
   \<not> MatchString profileNameRegexp ''a b'' \<and>
   MatchString profileNameRegexp ''prof_1-2'' \<and>
   (Path r = ''/upload'' \<and> Method r = ''POST'' \<and> x_upload_token r = UploadToken h \<and>
    \<not> MatchString profileNameRegexp (form_name r) \<longrightarrow>
      ServeHTTP ext env r h fs new_ResponseWriter =
        (Reply \<lparr>status = Some 400, written = []\<rparr>, h, fs))"
proof -
  have exs: "\<not> MatchString profileNameRegexp ''''"
    "\<not> MatchString profileNameRegexp ''../etc''"
    "\<not> MatchString profileNameRegexp ''a/b''"
    "\<not> MatchString profileNameRegexp ''a b''"
    "MatchString profileNameRegexp ''prof_1-2''"
    by (simp_all add: MatchString_profileName identifier_chars_def)
  have up: "Path r = ''/upload'' \<and> Method r = ''POST'' \<and> x_upload_token r = UploadToken h \<and>
    \<not> MatchString profileNameRegexp (form_name r) \<longrightarrow>
      ServeHTTP ext env r h fs new_ResponseWriter =
        (Reply \<lparr>status = Some 400, written = []\<rparr>, h, fs)"
    by (simp add: ServeHTTP_def upload_def WriteHeader_def new_ResponseWriter_def)
  from MatchString_profileName exs up show ?thesis by blast
qed

theorem C6_identifier_validation_witness:
  "MatchString profileNameRegexp ''prof_1-2'' \<and>
   ServeHTTP sample_externals \<lparr>clock = 7, write_fault = None\<rparr>
     \<lparr>Path = ''/upload'', Method = ''POST'', x_upload_token = ''pprof'', form_name = ''a b'',
      form_pprof = Some ''x''\<rparr>
     (new_Handler ''pprof'' ''profiles'') [] new_ResponseWriter =
   (Reply \<lparr>status = Some 400, written = []\<rparr>, new_Handler ''pprof'' ''profiles'', [])"
  using C6_identifier_validation [of "''prof_1-2''"
     "\<lparr>Path = ''/upload'', Method = ''POST'', x_upload_token = ''pprof'', form_name = ''a b'',
      form_pprof = Some ''x''\<rparr>" "new_Handler ''pprof'' ''profiles''" sample_externals
     "\<lparr>clock = 7, write_fault = None\<rparr>" "[]"]
  by (simp add: new_Handler_def identifier_chars_def)

subsection \<open>The token check\<close>

text \<open>
  Claim C5. A \<^verbatim>\<open>POST /upload\<close> whose \<^verbatim>\<open>x-upload-token\<close> differs from the configured
  token is answered 401 with an empty body; the handler (catalog and routes) and the
  file system are returned unchanged.
\<close>

theorem C5_bad_token:
  assumes "Path r = ''/upload''" and "Method r = ''POST''"
    and "x_upload_token r \<noteq> UploadToken h"
  shows "ServeHTTP ext env r h fs new_ResponseWriter =
           (Reply \<lparr>status = Some 401, written = []\<rparr>, h, fs) \<and>
         status_sent (fst (ServeHTTP ext env r h fs new_ResponseWriter)) = Some 401"
  using assms
  by (simp add: ServeHTTP_def upload_def WriteHeader_def new_ResponseWriter_def
      status_sent_def response_code_def)

theorem C5_bad_token_witness:
  "ServeHTTP sample_externals \<lparr>clock = 7, write_fault = None\<rparr>
     \<lparr>Path = ''/upload'', Method = ''POST'', x_upload_token = ''guess'', form_name = ''svc-a'',
      form_pprof = Some ''x''\<rparr>
     (new_Handler ''pprof'' ''profiles'') [] new_ResponseWriter =
   (Reply \<lparr>status = Some 401, written = []\<rparr>, new_Handler ''pprof'' ''profiles'', [])"
  using C5_bad_token [of
     "\<lparr>Path = ''/upload'', Method = ''POST'', x_upload_token = ''guess'', form_name = ''svc-a'',
      form_pprof = Some ''x''\<rparr>" "new_Handler ''pprof'' ''profiles''" sample_externals
     "\<lparr>clock = 7, write_fault = None\<rparr>" "[]"]
  by (simp add: new_Handler_def)

subsection \<open>Uploads that fail after the checks\<close>

text \<open>
  Claim C4. An upload that passes the token and the identifier check and whose bytes the
  parser rejects is answered 500 and leaves the handler, and so the catalog, as it was.
  Nothing is rolled back: when the destination could be opened and the copy completed,
  the file system after the request holds the uploaded bytes at the destination path.
\<close>

theorem C4_parse_failure:
  assumes "Path r = ''/upload''" and "Method r = ''POST''"
    and "x_upload_token r = UploadToken h"
    and "MatchString profileNameRegexp (form_name r)"
    and "form_pprof r = Some bytes"
    and "profile_Parse ext bytes = None"
  shows "\<exists>fs'. ServeHTTP ext env r h fs new_ResponseWriter =
           (Reply \<lparr>status = Some 500, written = []\<rparr>, h, fs') \<and>
         (\<not> isl (os_OpenFile (clock env) fs
                   (filepath_Join (ProfilesDir h) (form_name r @ ''.pprof''))) \<and>
          write_fault env = None \<longrightarrow>
            (\<exists>f. map_of fs' (filepath_Join (ProfilesDir h) (form_name r @ ''.pprof'')) = Some f \<and>
                 content f = bytes))"
proof -
  define path where "path = filepath_Join (ProfilesDir h) (form_name r @ ''.pprof'')"
  have w: "WriteHeader 500 new_ResponseWriter = \<lparr>status = Some 500, written = []\<rparr>"
    by (simp add: WriteHeader_def new_ResponseWriter_def)
  have serve: "ServeHTTP ext env r h fs new_ResponseWriter = upload ext env r h fs new_ResponseWriter"
    using assms(1,2) by (simp add: ServeHTTP_def)
  show ?thesis
  proof (cases "os_OpenFile (clock env) fs path")
    case (Inl e)
    then show ?thesis
      unfolding serve using assms(3-5) w
      by (simp add: upload_def path_def[symmetric])
  next
    case (Inr fs1)
    then obtain f1 where f1: "map_of fs1 path = Some f1"
      by (auto simp: os_OpenFile_def map_of_update_same split: option.splits if_splits)
    show ?thesis
    proof (cases "write_fault env")
      case (Some n)
      then show ?thesis
        unfolding serve using assms(3-5) w Inr f1
        by (simp add: upload_def path_def[symmetric] io_Copy_def)
    next
      case None
      define fs2 where "fs2 = AList.update path (f1\<lparr>content := bytes, modTime := clock env\<rparr>) fs1"
      have copy: "io_Copy (write_fault env) (clock env) fs1 path bytes = (None, fs2)"
        using None f1 by (simp add: io_Copy_def fs2_def)
      have look: "map_of fs2 path = Some (f1\<lparr>content := bytes, modTime := clock env\<rparr>)"
        by (simp add: fs2_def map_of_update_same)
      have "\<exists>e. LoadProfile ext fs2 path h = (Err e, h)"
        using look assms(6) by (simp add: LoadProfile_def os_Stat_def os_Open_def)
      then obtain e where load: "LoadProfile ext fs2 path h = (Err e, h)" ..
      have "upload ext env r h fs new_ResponseWriter = (Reply \<lparr>status = Some 500, written = []\<rparr>, h, fs2)"
        using assms(3-5) w Inr copy load
        by (simp add: upload_def path_def[symmetric])
      with look show ?thesis unfolding serve path_def[symmetric] by simp
    qed
  qed
qed

theorem C4_parse_failure_witness:
  "ServeHTTP sample_externals \<lparr>clock = 7, write_fault = None\<rparr>
     \<lparr>Path = ''/upload'', Method = ''POST'', x_upload_token = ''pprof'', form_name = ''svc-a'',
      form_pprof = Some ''garbage''\<rparr>
     (new_Handler ''pprof'' ''profiles'') [] new_ResponseWriter =
   (Reply \<lparr>status = Some 500, written = []\<rparr>, new_Handler ''pprof'' ''profiles'',
    [(''profiles/svc-a.pprof'',
      \<lparr>content = ''garbage'', modTime = 7, readable = True, writable = True\<rparr>)])"
  using C4_parse_failure [of
     "\<lparr>Path = ''/upload'', Method = ''POST'', x_upload_token = ''pprof'', form_name = ''svc-a'',
      form_pprof = Some ''garbage''\<rparr>" "new_Handler ''pprof'' ''profiles''" "''garbage''"
     sample_externals "\<lparr>clock = 7, write_fault = None\<rparr>" "[]"]
  by (simp add: new_Handler_def MatchString_profileName identifier_chars_def sample_externals_def
      strings_HasPrefix_def ServeHTTP_def upload_def os_OpenFile_def io_Copy_def LoadProfile_def
      os_Stat_def os_Open_def filepath_Join_def WriteHeader_def new_ResponseWriter_def)

text \<open>
  Claim C10. The destination is opened with create-and-truncate before the form file is
  read: an upload that passes both checks and has no readable \<^verbatim>\<open>pprof\<close> form file is
  answered 500 with the handler unchanged, and the file system it leaves is the one
  after \<^verbatim>\<open>os.OpenFile\<close>. In particular a writable file that was at the destination is now
  empty.
\<close>

theorem C10_truncate_before_form:
  assumes "Path r = ''/upload''" and "Method r = ''POST''"
    and "x_upload_token r = UploadToken h"
    and "MatchString profileNameRegexp (form_name r)"
    and "form_pprof r = None"
  shows "ServeHTTP ext env r h fs new_ResponseWriter =
           (Reply \<lparr>status = Some 500, written = []\<rparr>, h,
            (case os_OpenFile (clock env) fs
                    (filepath_Join (ProfilesDir h) (form_name r @ ''.pprof'')) of
               Inl e \<Rightarrow> fs | Inr fs1 \<Rightarrow> fs1)) \<and>
         (map_of fs (filepath_Join (ProfilesDir h) (form_name r @ ''.pprof'')) = Some f \<and>
          writable f \<longrightarrow>
            (\<exists>fs1. os_OpenFile (clock env) fs
                     (filepath_Join (ProfilesDir h) (form_name r @ ''.pprof'')) = Inr fs1 \<and>
                   map_of fs1 (filepath_Join (ProfilesDir h) (form_name r @ ''.pprof'')) =
                     Some (f\<lparr>content := [], modTime := clock env\<rparr>)))"
proof -
  have w: "WriteHeader 500 new_ResponseWriter = \<lparr>status = Some 500, written = []\<rparr>"
    by (simp add: WriteHeader_def new_ResponseWriter_def)
  have "ServeHTTP ext env r h fs new_ResponseWriter = upload ext env r h fs new_ResponseWriter"
    using assms(1,2) by (simp add: ServeHTTP_def)
  then have first: "ServeHTTP ext env r h fs new_ResponseWriter =
           (Reply \<lparr>status = Some 500, written = []\<rparr>, h,
            (case os_OpenFile (clock env) fs
                    (filepath_Join (ProfilesDir h) (form_name r @ ''.pprof'')) of
               Inl e \<Rightarrow> fs | Inr fs1 \<Rightarrow> fs1))"
    using assms(3-5) w by (simp add: upload_def split: sum.splits)
  have second: "map_of fs p = Some f \<and> writable f \<longrightarrow>
            (\<exists>fs1. os_OpenFile (clock env) fs p = Inr fs1 \<and>
                   map_of fs1 p = Some (f\<lparr>content := [], modTime := clock env\<rparr>))" for p
    by (simp add: os_OpenFile_def map_of_update_same)
  from first second show ?thesis by blast
qed

theorem C10_truncate_before_form_witness:
  "ServeHTTP sample_externals \<lparr>clock = 9, write_fault = None\<rparr>
     \<lparr>Path = ''/upload'', Method = ''POST'', x_upload_token = ''pprof'', form_name = ''svc-a'',
      form_pprof = None\<rparr>
     (new_Handler ''pprof'' ''profiles'')
     [(''profiles/svc-a.pprof'',
       \<lparr>content = ''PROF1'', modTime = 7, readable = True, writable = True\<rparr>)]
     new_ResponseWriter =
   (Reply \<lparr>status = Some 500, written = []\<rparr>, new_Handler ''pprof'' ''profiles'',
    [(''profiles/svc-a.pprof'',
      \<lparr>content = [], modTime = 9, readable = True, writable = True\<rparr>)])"
  using C10_truncate_before_form [of
     "\<lparr>Path = ''/upload'', Method = ''POST'', x_upload_token = ''pprof'', form_name = ''svc-a'',
      form_pprof = None\<rparr>" "new_Handler ''pprof'' ''profiles''"
     sample_externals "\<lparr>clock = 9, write_fault = None\<rparr>"
     "[(''profiles/svc-a.pprof'',
       \<lparr>content = ''PROF1'', modTime = 7, readable = True, writable = True\<rparr>)]"
     "\<lparr>content = ''PROF1'', modTime = 7, readable = True, writable = True\<rparr>"]
  by (simp add: new_Handler_def MatchString_profileName identifier_chars_def
      os_OpenFile_def filepath_Join_def)

subsection \<open>The index page\<close>

lemma strictly_descending:
  "sorted_wrt (\<lambda>a b. ModTime b \<le> ModTime a) xs \<Longrightarrow> distinct (map ModTime xs) \<Longrightarrow>
   sorted_wrt (\<lambda>a b. ModTime b < ModTime a) xs"
proof (induction xs)
  case Nil
  show ?case by simp
next
  case (Cons x xs)
  have "ModTime y < ModTime x" if "y \<in> set xs" for y
  proof -
    from Cons.prems(1) that have "ModTime y \<le> ModTime x" by simp
    moreover from Cons.prems(2) have "ModTime x \<notin> ModTime ` set xs" by simp
    with that have "ModTime y \<noteq> ModTime x" by (metis imageI)
    ultimately show ?thesis by simp
  qed
  with Cons show ?case by simp
qed

lemma status_foldl_Fprintf:
  "status w = Some c \<Longrightarrow> status (foldl (\<lambda>w x. Fprintf (f x) w) w xs) = Some c"
  by (induction xs arbitrary: w) (simp_all add: Fprintf_def)

lemma index_response:
  "index ext h new_ResponseWriter =
     \<lparr>status = Some 200,
      written = ''<html><body>'' @ concat (map (index_entry ext) (Profiles h)) @
                ''</body></html>'' @ [CHR 0x0A]\<rparr>"
proof -
  let ?w = "foldl (\<lambda>w profile. Fprintf (index_entry ext profile) w)
              (Fprintf ''<html><body>'' new_ResponseWriter) (Profiles h)"
  have s: "status ?w = Some 200"
    by (rule status_foldl_Fprintf) (simp add: Fprintf_def new_ResponseWriter_def)
  have "status (index ext h new_ResponseWriter) = Some 200"
    unfolding index_def using s by (simp add: Fprintf_def)
  with written_index [of ext h] show ?thesis
    by (cases "index ext h new_ResponseWriter") simp
qed

lemma LoadProfile_mux_mono:
  "set (ProfileMux h) \<subseteq> set (ProfileMux (snd (LoadProfile ext fs path h)))"
proof (cases "handlers_of ext fs path")
  case None
  from LoadProfile_None [OF this, of h] show ?thesis by auto
next
  case (Some a)
  then obtain t hs where hs: "handlers_of ext fs path = Some (t, hs)" by (cases a) auto
  obtain res mux where run: "HTTPServer (profileID_of path) hs (ProfileMux h) = (res, mux)"
    by (cases "HTTPServer (profileID_of path) hs (ProfileMux h)")
  have "set (ProfileMux h) \<subseteq> set mux"
    using HTTPServer_mono [of "ProfileMux h" "profileID_of path" hs] run by simp
  moreover have "ProfileMux (snd (LoadProfile ext fs path h)) = mux"
    using LoadProfile_Some [OF hs, of h] run by (cases res) simp_all
  ultimately show ?thesis by simp
qed

lemma loads_mux_mono: "set (ProfileMux h) \<subseteq> set (ProfileMux (loads ext steps h))"
proof (induction steps arbitrary: h)
  case Nil
  show ?case by simp
next
  case (Cons s steps)
  obtain fs path where s: "s = (fs, path)" by (cases s)
  from LoadProfile_mux_mono [of h ext fs path] Cons [of "snd (LoadProfile ext fs path h)"]
  show ?case unfolding s by auto
qed

text \<open>One step of a sequence of loads: nothing is loaded, or one snapshot is.\<close>

lemma load_step:
  obtains (skip) "loaded ext ((fs, path) # rest) h = loaded ext rest (snd (LoadProfile ext fs path h))"
      and "Profiles (snd (LoadProfile ext fs path h)) = Profiles h"
  | (load) t hs where
      "loaded ext ((fs, path) # rest) h =
         (\<lparr>Name = profileID_of path, ModTime = t\<rparr>, hs) #
         loaded ext rest (snd (LoadProfile ext fs path h))"
      and "Profiles (snd (LoadProfile ext fs path h)) =
             sort_Slice After (Profiles h @ [\<lparr>Name = profileID_of path, ModTime = t\<rparr>])"
      and "\<forall>hp \<in> set hs. ''/profiles/'' @ profileID_of path @ hp \<in>
             set (ProfileMux (snd (LoadProfile ext fs path h)))"
proof (cases "handlers_of ext fs path")
  case None
  from LoadProfile_None [OF this, of h] obtain e where "LoadProfile ext fs path h = (Err e, h)" ..
  then show ?thesis by (intro skip) simp_all
next
  case (Some a)
  then obtain t hs where hs: "handlers_of ext fs path = Some (t, hs)" by (cases a) auto
  obtain res mux where run: "HTTPServer (profileID_of path) hs (ProfileMux h) = (res, mux)"
    by (cases "HTTPServer (profileID_of path) hs (ProfileMux h)")
  show ?thesis
  proof (cases "res = Nil")
    case False
    then have "LoadProfile ext fs path h = (res, h\<lparr>ProfileMux := mux\<rparr>)"
      using LoadProfile_Some [OF hs, of h] run by (cases res) simp_all
    with False show ?thesis by (intro skip) (cases res; simp)+
  next
    case True
    with run have run': "HTTPServer (profileID_of path) hs (ProfileMux h) = (Nil, mux)" by simp
    have eq: "LoadProfile ext fs path h =
        (Nil, h\<lparr>ProfileMux := mux,
                Profiles := sort_Slice After (Profiles h @ [\<lparr>Name = profileID_of path, ModTime = t\<rparr>])\<rparr>)"
      using LoadProfile_Some [OF hs, of h] run' by simp
    from HTTPServer_Nil [OF run']
    have "\<forall>hp \<in> set hs. ''/profiles/'' @ profileID_of path @ hp \<in> set mux" by simp
    with eq hs show ?thesis by (intro load [of t hs]) simp_all
  qed
qed

lemma loads_loaded_mset:
  "mset (Profiles (loads ext steps h)) = mset (Profiles h) + mset (map fst (loaded ext steps h))"
proof (induction steps arbitrary: h)
  case Nil
  show ?case by simp
next
  case (Cons s steps)
  obtain fs path where s: "s = (fs, path)" by (cases s)
  let ?h1 = "snd (LoadProfile ext fs path h)"
  have ih: "mset (Profiles (loads ext steps ?h1)) =
            mset (Profiles ?h1) + mset (map fst (loaded ext steps ?h1))"
    by (rule Cons)
  show ?case
  proof (cases rule: load_step [of ext fs path steps h])
    case skip
    with ih show ?thesis unfolding s by simp
  next
    case (load t hs)
    with ih show ?thesis unfolding s by (simp add: mset_sort_Slice)
  qed
qed

lemma loads_loaded_routes:
  "\<forall>(p, hs) \<in> set (loaded ext steps h). \<forall>hp \<in> set hs.
     ''/profiles/'' @ Name p @ hp \<in> set (ProfileMux (loads ext steps h))"
proof (induction steps arbitrary: h)
  case Nil
  show ?case by simp
next
  case (Cons s steps)
  obtain fs path where s: "s = (fs, path)" by (cases s)
  let ?h1 = "snd (LoadProfile ext fs path h)"
  have ih: "\<forall>(p, hs) \<in> set (loaded ext steps ?h1). \<forall>hp \<in> set hs.
     ''/profiles/'' @ Name p @ hp \<in> set (ProfileMux (loads ext steps ?h1))"
    by (rule Cons)
  show ?case
  proof (cases rule: load_step [of ext fs path steps h])
    case skip
    with ih show ?thesis unfolding s by simp
  next
    case (load t hs)
    from load(3) loads_mux_mono [of ?h1 ext steps]
    have "\<forall>hp \<in> set hs. ''/profiles/'' @ profileID_of path @ hp \<in>
             set (ProfileMux (loads ext steps ?h1))"
      by blast
    with ih load(1) show ?thesis unfolding s by simp
  qed
qed

lemma filter_key_single:
  "distinct (map f zs) \<Longrightarrow> k \<in> set zs \<Longrightarrow> filter (\<lambda>x. f k = f x) zs = [k]"
proof (induction zs)
  case Nil
  then show ?case by simp
next
  case (Cons z zs)
  show ?case
  proof (cases "k = z")
    case True
    from Cons.prems(1) have "\<forall>x \<in> set zs. f z \<noteq> f x" by auto
    then have "filter (\<lambda>x. f z = f x) zs = []" by (simp add: filter_empty_conv)
    with True show ?thesis by simp
  next
    case False
    with Cons.prems have k: "k \<in> set zs" and "f z \<notin> f ` set zs" by auto
    then have "f k \<noteq> f z" by (metis imageI)
    with Cons k show ?thesis by simp
  qed
qed

lemma descending_unique:
  assumes m: "mset xs = mset ys" and d: "distinct (map ModTime ys)"
    and s: "sorted_wrt (\<lambda>a b. ModTime b \<le> ModTime a) xs"
  shows "xs = rev (sort_key ModTime ys)"
proof -
  from m have "mset (map ModTime xs) = mset (map ModTime ys)" by simp
  with d have dx: "distinct (map ModTime xs)" by (metis mset_eq_imp_distinct_iff)
  have "sort_key ModTime ys = rev xs"
  proof (rule properties_for_sort_key)
    show "mset (rev xs) = mset ys" using m by simp
    show "sorted (map ModTime (rev xs))"
      using s by (simp add: sorted_map sorted_wrt_rev)
    fix k assume "k \<in> set (rev xs)"
    then have kx: "k \<in> set xs" by simp
    with m have ky: "k \<in> set ys" by (metis mset_eq_setD)
    have "filter (\<lambda>x. ModTime k = ModTime x) xs = [k]"
      by (rule filter_key_single [OF dx kx])
    then have "filter (\<lambda>x. ModTime k = ModTime x) (rev xs) = [k]"
      by (simp add: rev_filter [symmetric])
    moreover have "filter (\<lambda>x. ModTime k = ModTime x) ys = [k]"
      by (rule filter_key_single [OF d ky])
    ultimately show "filter (\<lambda>x. ModTime k = ModTime x) (rev xs) =
        filter (\<lambda>x. ModTime k = ModTime x) ys" by simp
  qed
  then show ?thesis by simp
qed

lemma sample_loads_ev:
  "loads sample_externals
     [(sample_files, ''profiles/svc-a.pprof''), (sample_files, ''profiles/svc-b.pprof'')]
     (new_Handler ''pprof'' ''profiles'') = sample_handler"
  by code_simp

lemma sample_loaded_ev:
  "loaded sample_externals
     [(sample_files, ''profiles/svc-a.pprof''), (sample_files, ''profiles/svc-b.pprof'')]
     (new_Handler ''pprof'' ''profiles'') =
   [(\<lparr>Name = ''svc-a'', ModTime = 7\<rparr>, [''/'', ''/top'', ''/flamegraph'']),
    (\<lparr>Name = ''svc-b'', ModTime = 9\<rparr>, [''/'', ''/top'', ''/flamegraph''])]"
  by code_simp

text \<open>
  Claim C7. Let \<open>h\<close> be the handler after any sequence of loads on a new handler, and
  \<open>snaps\<close> the snapshots whose load returned nil, each with the modification time its
  file had at the load. If these times are pairwise distinct, the catalog holds exactly
  the records of \<open>snaps\<close>, each once, strictly descending in time: it is their list
  sorted by time, reversed. Every route the engine asked for is registered under
  \<^verbatim>\<open>/profiles/<Name>\<close>, and \<^verbatim>\<open>GET /\<close> is answered 200 with the page that lists the
  entries in catalog order, each as a link to \<^verbatim>\<open>/profiles/<Name>\<close>.
\<close>

theorem C7_index_descending:
  assumes h: "h = loads ext steps (new_Handler tok dir)"
    and snaps: "snaps = loaded ext steps (new_Handler tok dir)"
    and d: "distinct (map (ModTime \<circ> fst) snaps)"
  shows "mset (Profiles h) = mset (map fst snaps) \<and>
         sorted_wrt (\<lambda>a b. ModTime b < ModTime a) (Profiles h) \<and>
         Profiles h = rev (sort_key ModTime (map fst snaps)) \<and>
         (\<forall>(p, hs) \<in> set snaps. \<forall>hp \<in> set hs.
            ''/profiles/'' @ Name p @ hp \<in> set (ProfileMux h)) \<and>
         ServeHTTP ext env
           \<lparr>Path = ''/'', Method = ''GET'', x_upload_token = t, form_name = n, form_pprof = f\<rparr>
           h fs2 new_ResponseWriter =
           (Reply
              \<lparr>status = Some 200,
               written =
                 ''<html><body>'' @
                 concat (map (\<lambda>p. ''<div><a href='' @ [CHR 0x22] @ ''/profiles/'' @ Name p @
                                    [CHR 0x22] @ ''>'' @ Name p @ '' ('' @
                                    time_Format ext (ModTime p) @ '')</a></div>'')
                           (Profiles h)) @
                 ''</body></html>'' @ [CHR 0x0A]\<rparr>,
            h, fs2)"
proof -
  have m: "mset (Profiles h) = mset (map fst snaps)"
    unfolding h snaps using loads_loaded_mset [of ext steps "new_Handler tok dir"]
    by (simp add: new_Handler_def)
  have d': "distinct (map ModTime (map fst snaps))" using d by simp
  from m have "mset (map ModTime (Profiles h)) = mset (map ModTime (map fst snaps))"
    by (metis mset_map)
  with d' have dh: "distinct (map ModTime (Profiles h))" by (metis mset_eq_imp_distinct_iff)
  have "sorted_wrt (\<lambda>a b. ModTime b \<le> ModTime a) (Profiles (new_Handler tok dir))"
    by (simp add: new_Handler_def)
  then have s: "sorted_wrt (\<lambda>a b. ModTime b \<le> ModTime a) (Profiles h)"
    unfolding h by (rule loads_sorted)
  then have strict: "sorted_wrt (\<lambda>a b. ModTime b < ModTime a) (Profiles h)"
    using dh by (rule strictly_descending)
  have u: "Profiles h = rev (sort_key ModTime (map fst snaps))"
    using m d' s by (rule descending_unique)
  have r: "\<forall>(p, hs) \<in> set snaps. \<forall>hp \<in> set hs.
            ''/profiles/'' @ Name p @ hp \<in> set (ProfileMux h)"
    unfolding h snaps by (rule loads_loaded_routes)
  have e: "index_entry ext = (\<lambda>p. ''<div><a href='' @ [CHR 0x22] @ ''/profiles/'' @ Name p @
                                    [CHR 0x22] @ ''>'' @ Name p @ '' ('' @
                                    time_Format ext (ModTime p) @ '')</a></div>'')"
    by (rule ext) (simp add: index_entry_def)
  have page: "ServeHTTP ext env
           \<lparr>Path = ''/'', Method = ''GET'', x_upload_token = t, form_name = n, form_pprof = f\<rparr>
           h fs2 new_ResponseWriter =
           (Reply
              \<lparr>status = Some 200,
               written =
                 ''<html><body>'' @
                 concat (map (\<lambda>p. ''<div><a href='' @ [CHR 0x22] @ ''/profiles/'' @ Name p @
                                    [CHR 0x22] @ ''>'' @ Name p @ '' ('' @
                                    time_Format ext (ModTime p) @ '')</a></div>'')
                           (Profiles h)) @
                 ''</body></html>'' @ [CHR 0x0A]\<rparr>,
            h, fs2)"
    using index_response [of ext h] e by (simp add: ServeHTTP_def)
  from m strict u r page show ?thesis by blast
qed

theorem C7_index_descending_witness:
  "Profiles sample_handler = [\<lparr>Name = ''svc-b'', ModTime = 9\<rparr>, \<lparr>Name = ''svc-a'', ModTime = 7\<rparr>] \<and>
   Profiles sample_handler =
     rev (sort_key ModTime [\<lparr>Name = ''svc-a'', ModTime = 7\<rparr>, \<lparr>Name = ''svc-b'', ModTime = 9\<rparr>]) \<and>
   sorted_wrt (\<lambda>a b. ModTime b < ModTime a) (Profiles sample_handler) \<and>
   ServeHTTP sample_externals \<lparr>clock = 11, write_fault = None\<rparr>
     \<lparr>Path = ''/'', Method = ''GET'', x_upload_token = [], form_name = [], form_pprof = None\<rparr>
     sample_handler sample_files new_ResponseWriter =
     (Reply
        \<lparr>status = Some 200,
         written =
           ''<html><body>'' @
           ''<div><a href='' @ [CHR 0x22] @ ''/profiles/svc-b'' @ [CHR 0x22] @ ''>svc-b (T)</a></div>'' @
           ''<div><a href='' @ [CHR 0x22] @ ''/profiles/svc-a'' @ [CHR 0x22] @ ''>svc-a (T)</a></div>'' @
           ''</body></html>'' @ [CHR 0x0A]\<rparr>,
      sample_handler, sample_files)"
proof -
  have d: "distinct (map (ModTime \<circ> fst)
     [(\<lparr>Name = ''svc-a'', ModTime = 7\<rparr>, [''/'', ''/top'', ''/flamegraph'']),
      (\<lparr>Name = ''svc-b'', ModTime = 9\<rparr>, [''/'', ''/top'', ''/flamegraph''])])"
    by simp
  from C7_index_descending [OF sample_loads_ev [symmetric] sample_loaded_ev [symmetric] d,
      of "\<lparr>clock = 11, write_fault = None\<rparr>" "[]" "[]" None sample_files]
  show ?thesis by (simp add: sample_handler_def sample_externals_def)
qed

subsection \<open>A second load of a mounted identifier\<close>

text \<open>
  Claim C2, where the code departs from it. When a load has returned nil and the engine
  registers at least one handler, loading the same path again with the file system
  unchanged does not return an error: \<^verbatim>\<open>ServeMux.Handle\<close> panics on the first route,
  inside the hook, and \<^verbatim>\<open>LoadProfile\<close> has no recover.
\<close>

theorem C2_second_load_panics:
  assumes "LoadProfile ext fs path h = (Nil, h')"
    and "\<forall>p. driver_Handlers ext p \<noteq> Some []"
  shows "LoadProfile ext fs path h' = (Panic, h')"
proof -
  from assms(1) obtain t hs where hs: "handlers_of ext fs path = Some (t, hs)"
    using LoadProfile_None [of ext fs path h] by (cases "handlers_of ext fs path") auto
  from assms(2) hs have "hs \<noteq> []"
    by (auto simp: handlers_of_def split: sum.splits option.splits)
  then obtain hp rest where hp: "hs = hp # rest" by (cases hs) auto
  obtain res mux where run1: "HTTPServer (profileID_of path) hs (ProfileMux h) = (res, mux)"
    by (cases "HTTPServer (profileID_of path) hs (ProfileMux h)")
  from assms(1) LoadProfile_Some [OF hs, of h] run1 have "res = Nil" and mux: "ProfileMux h' = mux"
    by (cases res; auto)+
  with run1 HTTPServer_Nil [of "profileID_of path" hs "ProfileMux h" mux]
  have "''/profiles/'' @ profileID_of path @ hp \<in> set (ProfileMux h')"
    by (simp add: hp)
  then have "HTTPServer (profileID_of path) hs (ProfileMux h') = (Panic, ProfileMux h')"
    by (simp add: hp ServeMux_Handle_registered)
  with LoadProfile_Some [OF hs, of h'] show ?thesis by simp
qed

theorem C2_second_load_panics_witness:
  "LoadProfile sample_externals sample_directory ''profiles/a.pprof''
     (new_Handler ''pprof'' ''profiles'') =
   (Nil, \<lparr>UploadToken = ''pprof'', ProfilesDir = ''profiles'',
      ProfileMux = [''/profiles/a/'', ''/profiles/a/top'', ''/profiles/a/flamegraph''],
      Profiles = [\<lparr>Name = ''a'', ModTime = 7\<rparr>]\<rparr>) \<and>
   LoadProfile sample_externals sample_directory ''profiles/a.pprof''
     \<lparr>UploadToken = ''pprof'', ProfilesDir = ''profiles'',
      ProfileMux = [''/profiles/a/'', ''/profiles/a/top'', ''/profiles/a/flamegraph''],
      Profiles = [\<lparr>Name = ''a'', ModTime = 7\<rparr>]\<rparr> =
   (Panic, \<lparr>UploadToken = ''pprof'', ProfilesDir = ''profiles'',
      ProfileMux = [''/profiles/a/'', ''/profiles/a/top'', ''/profiles/a/flamegraph''],
      Profiles = [\<lparr>Name = ''a'', ModTime = 7\<rparr>]\<rparr>) \<and>
   fst (ServeHTTP sample_externals \<lparr>clock = 11, write_fault = None\<rparr>
     \<lparr>Path = ''/upload'', Method = ''POST'', x_upload_token = ''pprof'',
      form_name = ''svc-a'', form_pprof = Some ''PROF3''\<rparr>
     sample_handler sample_files new_ResponseWriter) = Panicked"
proof -
  have first: "LoadProfile sample_externals sample_directory ''profiles/a.pprof''
     (new_Handler ''pprof'' ''profiles'') =
   (Nil, \<lparr>UploadToken = ''pprof'', ProfilesDir = ''profiles'',
      ProfileMux = [''/profiles/a/'', ''/profiles/a/top'', ''/profiles/a/flamegraph''],
      Profiles = [\<lparr>Name = ''a'', ModTime = 7\<rparr>]\<rparr>)"
    by code_simp
  have eng: "\<forall>p. driver_Handlers sample_externals p \<noteq> Some []"
    by (simp add: sample_externals_def)
  from C2_second_load_panics [OF first eng] first upload_again_ev show ?thesis by simp
qed

subsection \<open>Dispatch\<close>

lemma ServeHTTP_unknown_path:
  "Path r \<noteq> ''/'' \<Longrightarrow> Path r \<noteq> ''/upload'' \<Longrightarrow> \<not> strings_HasPrefix (Path r) ''/profiles/'' \<Longrightarrow>
   ServeHTTP ext env r h fs new_ResponseWriter = (Reply \<lparr>status = Some 404, written = []\<rparr>, h, fs)"
  by (simp add: ServeHTTP_def WriteHeader_def new_ResponseWriter_def)

text \<open>
  Claim C8, where the code departs from it. \<^verbatim>\<open>POST /\<close> and \<^verbatim>\<open>GET /upload\<close> reach an
  inner switch without a default: the handler returns without writing anything, and the
  client receives 200 with an empty body, not 404.
\<close>

theorem C8_unrecognized_method:
  "ServeHTTP ext env
     \<lparr>Path = ''/'', Method = ''POST'', x_upload_token = t, form_name = n, form_pprof = f\<rparr>
     h fs new_ResponseWriter = (Reply \<lparr>status = None, written = []\<rparr>, h, fs) \<and>
   ServeHTTP ext env
     \<lparr>Path = ''/upload'', Method = ''GET'', x_upload_token = t, form_name = n, form_pprof = f\<rparr>
     h fs new_ResponseWriter = (Reply \<lparr>status = None, written = []\<rparr>, h, fs) \<and>
   status_sent (Reply \<lparr>status = None, written = []\<rparr>) = Some 200"
  by (simp add: ServeHTTP_def new_ResponseWriter_def status_sent_def response_code_def)

end
